theory Spec2Isabelle
  imports Main "HOL-Library.Char_ord" "HOL-Library.List_Lexorder"
begin

section \<open>Data model\<close>

text \<open>
  The chat server (\<^verbatim>\<open>src/server/index.js\<close>) keeps all durable state in a relational
  store reached through a query client; the tables and their constraints are those of the
  migration that follows the server code in the same file. A row is a record with one field
  per column. Identifiers are text; timestamps are integers (milliseconds).

  The handlers are modelled as they run after authentication: \<open>uid\<close> is the user id of the
  verified token (\<^verbatim>\<open>req.user.uid\<close>, \<^verbatim>\<open>socket.user.uid\<close>). A handler takes the store
  (and the rooms) and returns the new store, its answer and what it emits. What a store
  call does is what the query client does on this schema: rows are found in table order
  where no order is asked for, a write that breaks a primary key or a foreign key of the
  migration is rejected, and a rejected write throws. Request fields are strings that may
  be absent. Registration, login, uploads, push subscriptions and presence are not part of
  the model.
\<close>

type_synonym ident = string
type_synonym time = int

text \<open>
  Emails, display names and search queries are free text, whose letter case matters to
  the search: they are kept as the runtime has them, as sequences of UTF-16 code units.
\<close>

type_synonym jstring = "nat list"

text \<open>
  The columns \<^verbatim>\<open>deliveredTo\<close> and \<^verbatim>\<open>readBy\<close> hold JSON values, and event
  payloads carry arbitrary JSON. Numbers are kept as integers: the handlers only test them
  for truthiness.
\<close>

datatype json =
    JNull
  | JBool bool
  | JNum int
  | JStr string
  | JArr "json list"
  | JObj "(string \<times> json) list"

record user =
  user_id :: ident
  user_email :: jstring
  user_passwordHash :: string
  user_displayName :: jstring
  user_avatarUrl :: "string option"
  user_lastSeenAt :: time
  user_createdAt :: time

record conversation =
  conv_id :: ident
  conv_isGroup :: bool
  conv_title :: "string option"
  conv_createdAt :: time

record membership =
  mem_id :: ident
  mem_userId :: ident
  mem_conversationId :: ident
  mem_role :: string
  mem_joinedAt :: time
  mem_lastReadMsgId :: "ident option"

record message =
  msg_id :: ident
  msg_conversationId :: ident
  msg_authorId :: ident
  msg_kind :: string
  msg_text :: "string option"
  msg_fileUrl :: "string option"
  msg_createdAt :: time
  msg_deliveredTo :: json
  msg_readBy :: json

text \<open>The store: one list of rows per table, in insertion order.\<close>

record store =
  users :: "user list"
  conversations :: "conversation list"
  memberships :: "membership list"
  messages :: "message list"

text \<open>
  A store call that violates a declared constraint is rejected and throws in the caller;
  reading a field of \<^verbatim>\<open>null\<close> throws a \<^verbatim>\<open>TypeError\<close>.
\<close>

datatype failure = TypeError | UniqueViolation | ForeignKeyViolation | ValidationError

datatype 'a reply = Ok200 'a | Status400 string | Status500 string

section \<open>JavaScript helpers\<close>

text \<open>
  \<^verbatim>\<open>Array.from(new Set(xs))\<close>: the elements of \<^verbatim>\<open>xs\<close> in order of first
  occurrence. The accumulator is the set built so far.
\<close>

fun set_add_all :: "'a list \<Rightarrow> 'a list \<Rightarrow> 'a list" where
  "set_add_all acc [] = acc"
| "set_add_all acc (x # xs) = set_add_all (if x \<in> set acc then acc else acc @ [x]) xs"

definition array_from_set :: "'a list \<Rightarrow> 'a list" where
  "array_from_set xs = set_add_all [] xs"

text \<open>Truthiness of a string that may be \<^verbatim>\<open>undefined\<close>: only a non-empty string is truthy.\<close>

fun truthy_str :: "string option \<Rightarrow> bool" where
  "truthy_str None = False"
| "truthy_str (Some s) = (s \<noteq> [])"


text \<open>The text of a string known to be present.\<close>

definition str_of :: "string option \<Rightarrow> string" where
  "str_of v = (case v of None \<Rightarrow> [] | Some x \<Rightarrow> x)"

text \<open>\<^verbatim>\<open>v || null\<close> on an optional string.\<close>

definition or_null :: "string option \<Rightarrow> string option" where
  "or_null v = (if truthy_str v then v else None)"

section \<open>Conversations: get-or-create\<close>

definition memberships_of :: "store \<Rightarrow> ident \<Rightarrow> membership list" where
  "memberships_of s c = filter (\<lambda>m. mem_conversationId m = c) (memberships s)"

text \<open>\<^verbatim>\<open>include: { memberships: true }\<close>\<close>

definition include_memberships :: "store \<Rightarrow> conversation \<Rightarrow> conversation \<times> membership list" where
  "include_memberships s c = (c, memberships_of s (conv_id c))"

text \<open>
  The \<^verbatim>\<open>where\<close> clause of the lookup: a non-group conversation in which some
  membership belongs to \<^verbatim>\<open>u1\<close> and some membership belongs to \<^verbatim>\<open>u2\<close>.
\<close>

definition direct_match :: "store \<Rightarrow> ident \<Rightarrow> ident \<Rightarrow> conversation \<Rightarrow> bool" where
  "direct_match s u1 u2 c \<longleftrightarrow>
     \<not> conv_isGroup c
     \<and> u1 \<in> set (map mem_userId (memberships_of s (conv_id c)))
     \<and> u2 \<in> set (map mem_userId (memberships_of s (conv_id c)))"

text \<open>
  \<^verbatim>\<open>prisma.conversation.findFirst\<close> with that clause and the memberships included: the
  first match in table order, or \<^verbatim>\<open>null\<close>.
\<close>

definition conversation_findFirst ::
  "store \<Rightarrow> ident \<Rightarrow> ident \<Rightarrow> (conversation \<times> membership list) option" where
  "conversation_findFirst s u1 u2 =
     map_option (include_memberships s) (find (direct_match s u1 u2) (conversations s))"

text \<open>
  Row ids are produced by the query client when a row is inserted; \<open>gen\<close> is that generator
  for one request: \<open>gen 0\<close> names the conversation, \<open>gen (Suc i)\<close> the membership of the
  \<open>i\<close>-th member.
\<close>

definition new_memberships :: "(nat \<Rightarrow> ident) \<Rightarrow> time \<Rightarrow> ident \<Rightarrow> ident list \<Rightarrow> membership list" where
  "new_memberships gen now cid uids =
     map (\<lambda>(i, u). \<lparr> mem_id = gen (Suc i), mem_userId = u, mem_conversationId = cid,
                      mem_role = ''member'', mem_joinedAt = now, mem_lastReadMsgId = None \<rparr>)
         (enumerate 0 uids)"

text \<open>
  \<^verbatim>\<open>prisma.conversation.create\<close> with nested membership rows, as one transaction. It
  is rejected when a primary key repeats or a membership names an unknown user
  (\<^verbatim>\<open>Membership_userId_fkey\<close>).
\<close>

definition conversation_create ::
  "store \<Rightarrow> (nat \<Rightarrow> ident) \<Rightarrow> time \<Rightarrow> bool \<Rightarrow> string option \<Rightarrow> ident list
     \<Rightarrow> failure + (store \<times> (conversation \<times> membership list))" where
  "conversation_create s gen now isGroup title uids =
     (let c = \<lparr> conv_id = gen 0, conv_isGroup = isGroup, conv_title = title, conv_createdAt = now \<rparr>;
          ms = new_memberships gen now (gen 0) uids
      in if gen 0 \<in> set (map conv_id (conversations s))
            \<or> \<not> distinct (map mem_id ms)
            \<or> \<not> (set (map mem_id ms) \<inter> set (map mem_id (memberships s)) = {})
         then Inl UniqueViolation
         else if \<not> set uids \<subseteq> set (map user_id (users s))
         then Inl ForeignKeyViolation
         else (let s' = s\<lparr> conversations := conversations s @ [c],
                           memberships := memberships s @ ms \<rparr>
               in Inr (s', include_memberships s' c)))"

text \<open>The tail of the handler: create, answer with the created row; any throw is caught (500).\<close>

definition create_and_reply ::
  "store \<Rightarrow> (nat \<Rightarrow> ident) \<Rightarrow> time \<Rightarrow> bool \<Rightarrow> string option \<Rightarrow> ident list
     \<Rightarrow> store \<times> (conversation \<times> membership list) reply" where
  "create_and_reply s gen now isGroup title uids =
     (case conversation_create s gen now isGroup title uids of
        Inl e \<Rightarrow> (s, Status500 ''server_error'')
      | Inr (s', convo) \<Rightarrow> (s', Ok200 convo))"

text \<open>\<^verbatim>\<open>POST /conversations\<close> for the authenticated user \<open>uid\<close>.\<close>

definition post_conversations ::
  "store \<Rightarrow> (nat \<Rightarrow> ident) \<Rightarrow> time \<Rightarrow> ident \<Rightarrow> ident list \<Rightarrow> bool \<Rightarrow> string option
     \<Rightarrow> store \<times> (conversation \<times> membership list) reply" where
  "post_conversations s gen now uid memberIds isGroup title =
     (let uniqueMemberIds = array_from_set (uid # memberIds)
      in if \<not> isGroup then
           (if length uniqueMemberIds \<noteq> 2
            then (s, Status400 ''direct chat must have exactly 2 members'')
            else (case conversation_findFirst s (uniqueMemberIds ! 0) (uniqueMemberIds ! 1) of
                    Some existing \<Rightarrow>
                      if length (snd existing) = 2 then (s, Ok200 existing)
                      else create_and_reply s gen now isGroup title uniqueMemberIds
                  | None \<Rightarrow> create_and_reply s gen now isGroup title uniqueMemberIds))
         else create_and_reply s gen now isGroup title uniqueMemberIds)"

section \<open>Messages\<close>

text \<open>
  \<^verbatim>\<open>prisma.message.create\<close>: the new row gets the generated id \<open>newId\<close>, the
  current time, and the column defaults \<^verbatim>\<open>[]\<close> for \<^verbatim>\<open>deliveredTo\<close> and
  \<^verbatim>\<open>readBy\<close>. The insert is rejected when the primary key repeats, or when the
  conversation or the author is unknown (\<^verbatim>\<open>Message_conversationId_fkey\<close>,
  \<^verbatim>\<open>Message_authorId_fkey\<close>).
\<close>

definition message_create ::
  "store \<Rightarrow> ident \<Rightarrow> time \<Rightarrow> ident \<Rightarrow> ident \<Rightarrow> string \<Rightarrow> string option \<Rightarrow> string option
     \<Rightarrow> failure + (store \<times> message)" where
  "message_create s newId now cid author kind text fileUrl =
     (let m = \<lparr> msg_id = newId, msg_conversationId = cid, msg_authorId = author,
                 msg_kind = kind, msg_text = text, msg_fileUrl = fileUrl,
                 msg_createdAt = now, msg_deliveredTo = JArr [], msg_readBy = JArr [] \<rparr>
      in if newId \<in> set (map msg_id (messages s)) then Inl UniqueViolation
         else if cid \<notin> set (map conv_id (conversations s))
                 \<or> author \<notin> set (map user_id (users s))
         then Inl ForeignKeyViolation
         else Inr (s\<lparr> messages := messages s @ [m] \<rparr>, m))"

text \<open>\<^verbatim>\<open>prisma.message.findUnique({ where: { id } })\<close>: the row, or \<^verbatim>\<open>null\<close>.\<close>

definition message_findUnique :: "store \<Rightarrow> ident \<Rightarrow> message option" where
  "message_findUnique s i = find (\<lambda>m. msg_id m = i) (messages s)"

text \<open>\<^verbatim>\<open>prisma.message.update\<close> of one column of the row with the given id.\<close>

definition message_update_deliveredTo :: "store \<Rightarrow> ident \<Rightarrow> json \<Rightarrow> store" where
  "message_update_deliveredTo s i v =
     s\<lparr> messages := map (\<lambda>m. if msg_id m = i then m\<lparr> msg_deliveredTo := v \<rparr> else m) (messages s) \<rparr>"

definition message_update_readBy :: "store \<Rightarrow> ident \<Rightarrow> json \<Rightarrow> store" where
  "message_update_readBy s i v =
     s\<lparr> messages := map (\<lambda>m. if msg_id m = i then m\<lparr> msg_readBy := v \<rparr> else m) (messages s) \<rparr>"

text \<open>\<^verbatim>\<open>Array.isArray(v) ? v : []\<close>\<close>

fun as_array :: "json \<Rightarrow> json list" where
  "as_array (JArr xs) = xs"
| "as_array _ = []"

text \<open>\<^verbatim>\<open>if (!xs.includes(uid)) xs.push(uid)\<close>: a string equals only the same string.\<close>

definition push_absent :: "json list \<Rightarrow> ident \<Rightarrow> json list" where
  "push_absent xs uid = (if JStr uid \<in> set xs then xs else xs @ [JStr uid])"

text \<open>
  The ledger part of the \<^verbatim>\<open>ack_delivered\<close> handler (the three store lines): fetch the
  message, add the user, write the column back. The result is the new store and the array
  that was written. A missing message makes the field access throw.
\<close>

definition acknowledgeDelivered :: "store \<Rightarrow> ident \<Rightarrow> ident \<Rightarrow> failure + (store \<times> json list)" where
  "acknowledgeDelivered s msgId uid =
     (case message_findUnique s msgId of
        None \<Rightarrow> Inl TypeError
      | Some msg \<Rightarrow>
          (let deliveredTo = push_absent (as_array (msg_deliveredTo msg)) uid
           in Inr (message_update_deliveredTo s msgId (JArr deliveredTo), deliveredTo)))"

definition acknowledgeRead :: "store \<Rightarrow> ident \<Rightarrow> ident \<Rightarrow> failure + (store \<times> json list)" where
  "acknowledgeRead s msgId uid =
     (case message_findUnique s msgId of
        None \<Rightarrow> Inl TypeError
      | Some msg \<Rightarrow>
          (let readBy = push_absent (as_array (msg_readBy msg)) uid
           in Inr (message_update_readBy s msgId (JArr readBy), readBy)))"

subsection \<open>History\<close>

text \<open>
  The query parameter \<^verbatim>\<open>limit\<close> after \<^verbatim>\<open>Number(limit)\<close>: absent (the default 50
  applies), a finite number, or a value that is not a finite number. \<open>LimitInt n\<close> is a
  finite number that the query client reads as the integer \<open>n\<close>: it drops the fraction
  of a number that is not negative (1.5 is read as 1).
\<close>

datatype limit_param = LimitAbsent | LimitInt int | LimitNotFinite

text \<open>
  The query client hands \<^verbatim>\<open>take\<close> to the database as a signed 32-bit row count. Only
  a value inside that range is a row count as it stands.
\<close>

definition in_take_range :: "int \<Rightarrow> bool" where
  "in_take_range n \<longleftrightarrow> - (2 ^ 31) < n \<and> n < 2 ^ 31"

fun row_limit :: "limit_param \<Rightarrow> int option" where
  "row_limit LimitAbsent = Some 50"
| "row_limit (LimitInt n) = (if in_take_range n then Some n else None)"
| "row_limit LimitNotFinite = None"

text \<open>The rows selected by \<^verbatim>\<open>where\<close>, in table order. Ids are compared as text.\<close>

definition message_where :: "store \<Rightarrow> ident \<Rightarrow> ident option \<Rightarrow> message list" where
  "message_where s cid beforeId =
     filter (\<lambda>m. msg_conversationId m = cid
                  \<and> (case beforeId of None \<Rightarrow> True | Some b \<Rightarrow> msg_id m < b))
            (messages s)"

text \<open>
  \<^verbatim>\<open>findMany({ where, orderBy: { createdAt: "desc" }, take })\<close> for a row count
  \<open>n\<close> in range. For \<open>n \<ge> 0\<close> the rows are read newest first and the first \<open>n\<close> are
  kept. For \<open>n < 0\<close> the query client reads them in the opposite order, oldest first,
  keeps the first \<open>- n\<close> and hands them back reversed. Rows with the same creation time
  are read in table order either way.
\<close>

definition message_findMany :: "store \<Rightarrow> ident \<Rightarrow> ident option \<Rightarrow> int \<Rightarrow> message list" where
  "message_findMany s cid beforeId n =
     (if 0 \<le> n
      then take (nat n) (sort_key (\<lambda>m. - msg_createdAt m) (message_where s cid beforeId))
      else rev (take (nat (- n)) (sort_key msg_createdAt (message_where s cid beforeId))))"

text \<open>
  What the query client does with a \<^verbatim>\<open>take\<close> outside the 32-bit range, or with one
  that is not a finite number, is not part of the server's code (it reduces some values and
  refuses others). It is a parameter of the handler: given the limit and the selected rows
  it yields what \<^verbatim>\<open>findMany\<close> returns or throws.
\<close>

type_synonym wide_take = "limit_param \<Rightarrow> message list \<Rightarrow> failure + message list"

text \<open>\<^verbatim>\<open>GET /messages\<close>. An empty \<^verbatim>\<open>before\<close> adds no condition on the id.\<close>

definition get_messages ::
  "wide_take \<Rightarrow> store \<Rightarrow> string option \<Rightarrow> string option \<Rightarrow> limit_param
     \<Rightarrow> failure + message list reply" where
  "get_messages wide s cid beforeId limit =
     (if \<not> truthy_str cid then Inr (Status400 ''cid required'')
      else (case row_limit limit of
              Some n \<Rightarrow>
                Inr (Ok200 (rev (message_findMany s (str_of cid)
                                   (if truthy_str beforeId then beforeId else None) n)))
            | None \<Rightarrow>
                (case wide limit (message_where s (str_of cid)
                                    (if truthy_str beforeId then beforeId else None)) of
                   Inl e \<Rightarrow> Inl e
                 | Inr rows \<Rightarrow> Inr (Ok200 (rev rows)))))"

section \<open>User search\<close>







section \<open>Realtime channel\<close>

text \<open>
  A room is a named set of live sockets. An emission delivers one event to each socket of
  a room; \<^verbatim>\<open>io.to(room)\<close> reaches all of them, \<^verbatim>\<open>socket.to(room)\<close> all but the
  emitting socket.
\<close>

type_synonym sid = string
type_synonym rooms = "string \<Rightarrow> sid set"

datatype event =
    Typing ident ident bool
  | MessageCreated message
  | MessageUpdatedDeliveredTo ident "json list"
  | MessageUpdatedReadBy ident "json list"

definition room_of :: "ident \<Rightarrow> string" where
  "room_of cid = ''cid:'' @ cid"

definition io_to :: "rooms \<Rightarrow> string \<Rightarrow> event \<Rightarrow> (sid \<times> event) set" where
  "io_to rs room ev = (\<lambda>k. (k, ev)) ` rs room"


definition join_conversation :: "rooms \<Rightarrow> sid \<Rightarrow> string option \<Rightarrow> rooms" where
  "join_conversation rs me cid =
     (if \<not> truthy_str cid then rs
      else rs(room_of (str_of cid) := insert me (rs (room_of (str_of cid)))))"

definition leave_conversation :: "rooms \<Rightarrow> sid \<Rightarrow> string option \<Rightarrow> rooms" where
  "leave_conversation rs me cid =
     (if \<not> truthy_str cid then rs
      else rs(room_of (str_of cid) := rs (room_of (str_of cid)) - {me}))"


text \<open>
  The \<^verbatim>\<open>send_message\<close> handler. A rejected insert throws out of the handler: nothing
  is stored and nothing is emitted.
\<close>

definition send_message ::
  "store \<Rightarrow> rooms \<Rightarrow> ident \<Rightarrow> ident \<Rightarrow> time
     \<Rightarrow> string option \<Rightarrow> string option \<Rightarrow> string option \<Rightarrow> string option
     \<Rightarrow> failure + (store \<times> (sid \<times> event) set)" where
  "send_message s rs uid newId now cid kind text fileUrl =
     (if \<not> truthy_str cid \<or> \<not> truthy_str kind then Inr (s, {})
      else (case message_create s newId now (str_of cid) uid (str_of kind)
                   (or_null text) (or_null fileUrl) of
              Inl e \<Rightarrow> Inl e
            | Inr (s', msg) \<Rightarrow> Inr (s', io_to rs (room_of (str_of cid)) (MessageCreated msg))))"

text \<open>The \<^verbatim>\<open>ack_delivered\<close> and \<^verbatim>\<open>ack_read\<close> handlers.\<close>

definition ack_delivered ::
  "store \<Rightarrow> rooms \<Rightarrow> ident \<Rightarrow> string option \<Rightarrow> string option
     \<Rightarrow> failure + (store \<times> (sid \<times> event) set)" where
  "ack_delivered s rs uid cid msgId =
     (if \<not> truthy_str cid \<or> \<not> truthy_str msgId then Inr (s, {})
      else (case acknowledgeDelivered s (str_of msgId) uid of
              Inl e \<Rightarrow> Inl e
            | Inr (s', deliveredTo) \<Rightarrow>
                Inr (s', io_to rs (room_of (str_of cid))
                           (MessageUpdatedDeliveredTo (str_of msgId) deliveredTo))))"

definition ack_read ::
  "store \<Rightarrow> rooms \<Rightarrow> ident \<Rightarrow> string option \<Rightarrow> string option
     \<Rightarrow> failure + (store \<times> (sid \<times> event) set)" where
  "ack_read s rs uid cid msgId =
     (if \<not> truthy_str cid \<or> \<not> truthy_str msgId then Inr (s, {})
      else (case acknowledgeRead s (str_of msgId) uid of
              Inl e \<Rightarrow> Inl e
            | Inr (s', readBy) \<Rightarrow>
                Inr (s', io_to rs (room_of (str_of cid))
                           (MessageUpdatedReadBy (str_of msgId) readBy))))"

section \<open>Notions used in the statements\<close>

text \<open>
  The rows a page of history is selected from: those of the conversation, and, when a
  non-empty \<^verbatim>\<open>before\<close> is given, with an id below it.
\<close>

definition page_candidates :: "store \<Rightarrow> ident \<Rightarrow> string option \<Rightarrow> message list" where
  "page_candidates s c beforeId =
     filter (\<lambda>m. msg_conversationId m = c \<and> (truthy_str beforeId \<longrightarrow> msg_id m < str_of beforeId))
            (messages s)"




text \<open>Two message rows that agree on every column but \<^verbatim>\<open>deliveredTo\<close> (\<^verbatim>\<open>readBy\<close>).\<close>

definition same_but_deliveredTo :: "message \<Rightarrow> message \<Rightarrow> bool" where
  "same_but_deliveredTo m m' \<longleftrightarrow>
     msg_id m' = msg_id m \<and> msg_conversationId m' = msg_conversationId m
     \<and> msg_authorId m' = msg_authorId m \<and> msg_kind m' = msg_kind m
     \<and> msg_text m' = msg_text m \<and> msg_fileUrl m' = msg_fileUrl m
     \<and> msg_createdAt m' = msg_createdAt m \<and> msg_readBy m' = msg_readBy m"

definition same_but_readBy :: "message \<Rightarrow> message \<Rightarrow> bool" where
  "same_but_readBy m m' \<longleftrightarrow>
     msg_id m' = msg_id m \<and> msg_conversationId m' = msg_conversationId m
     \<and> msg_authorId m' = msg_authorId m \<and> msg_kind m' = msg_kind m
     \<and> msg_text m' = msg_text m \<and> msg_fileUrl m' = msg_fileUrl m
     \<and> msg_createdAt m' = msg_createdAt m \<and> msg_deliveredTo m' = msg_deliveredTo m"

text \<open>
  The foreign keys of the membership table: every membership row names a user row and a
  conversation row.
\<close>

definition memberships_ref_ok :: "store \<Rightarrow> bool" where
  "memberships_ref_ok s \<longleftrightarrow>
     set (map mem_userId (memberships s)) \<subseteq> set (map user_id (users s))
     \<and> set (map mem_conversationId (memberships s)) \<subseteq> set (map conv_id (conversations s))"

text \<open>
  The data-model invariant of direct chats: a non-group conversation has exactly two
  memberships.
\<close>

definition direct_pairs_ok :: "store \<Rightarrow> bool" where
  "direct_pairs_ok s \<longleftrightarrow>
     (\<forall>c\<in>set (conversations s). \<not> conv_isGroup c \<longrightarrow> length (memberships_of s (conv_id c)) = 2)"

text \<open>
  The ids the generator hands out for a conversation with \<open>n\<close> members are new: the
  conversation id is unused, the membership ids are unused and differ from each other.
\<close>

definition ids_fresh :: "store \<Rightarrow> (nat \<Rightarrow> ident) \<Rightarrow> nat \<Rightarrow> bool" where
  "ids_fresh s gen n \<longleftrightarrow>
     gen 0 \<notin> set (map conv_id (conversations s))
     \<and> distinct (map gen [1..<Suc n])
     \<and> set (map gen [1..<Suc n]) \<inter> set (map mem_id (memberships s)) = {}"

text \<open>The store after a conversation with the given members has been inserted.\<close>

definition created :: "store \<Rightarrow> (nat \<Rightarrow> ident) \<Rightarrow> time \<Rightarrow> bool \<Rightarrow> string option \<Rightarrow> ident list \<Rightarrow> store" where
  "created s g now isGroup title uids =
     s\<lparr> conversations := conversations s @
           [\<lparr> conv_id = g 0, conv_isGroup = isGroup, conv_title = title, conv_createdAt = now \<rparr>],
        memberships := memberships s @ new_memberships g now (g 0) uids \<rparr>"

section \<open>A small store\<close>

text \<open>
  Alice and Bob share the direct conversation \<open>c1\<close>, in which Alice has sent two messages;
  Carol is registered and in no conversation. Two sockets are in the room of \<open>c1\<close>.
\<close>

text \<open>The code units of a text written in ASCII.\<close>

definition utf16 :: "string \<Rightarrow> jstring" where
  "utf16 s = map of_char s"

definition mk_user :: "ident \<Rightarrow> string \<Rightarrow> string \<Rightarrow> user" where
  "mk_user i e n = \<lparr> user_id = i, user_email = utf16 e, user_passwordHash = ''h'',
                     user_displayName = utf16 n,
                     user_avatarUrl = None, user_lastSeenAt = 0, user_createdAt = 0 \<rparr>"

definition mk_membership :: "ident \<Rightarrow> ident \<Rightarrow> ident \<Rightarrow> membership" where
  "mk_membership i u c = \<lparr> mem_id = i, mem_userId = u, mem_conversationId = c,
                           mem_role = ''member'', mem_joinedAt = 10, mem_lastReadMsgId = None \<rparr>"

definition mk_message :: "ident \<Rightarrow> time \<Rightarrow> string \<Rightarrow> message" where
  "mk_message i t body = \<lparr> msg_id = i, msg_conversationId = ''c1'', msg_authorId = ''u1'',
                           msg_kind = ''text'', msg_text = Some body, msg_fileUrl = None,
                           msg_createdAt = t, msg_deliveredTo = JArr [], msg_readBy = JArr [] \<rparr>"

definition c1_row :: conversation where
  "c1_row = \<lparr> conv_id = ''c1'', conv_isGroup = False, conv_title = None, conv_createdAt = 10 \<rparr>"

definition small_store :: store where
  "small_store =
     \<lparr> users = [mk_user ''u1'' ''alice@x.com'' ''Alice'', mk_user ''u2'' ''b@x.com'' ''Bob'',
                 mk_user ''u3'' ''carol@x.com'' ''Carol''],
       conversations = [c1_row],
       memberships = [mk_membership ''k1'' ''u1'' ''c1'', mk_membership ''k2'' ''u2'' ''c1''],
       messages = [mk_message ''m1'' 100 ''hi'', mk_message ''m2'' 200 ''there''] \<rparr>"

definition small_rooms :: rooms where
  "small_rooms = (\<lambda>r. if r = ''cid:c1'' then {''sockA'', ''sockB''} else {})"

definition gen_a :: "nat \<Rightarrow> ident" where
  "gen_a n = CHR ''a'' # replicate n CHR ''x''"

definition gen_b :: "nat \<Rightarrow> ident" where
  "gen_b n = CHR ''b'' # replicate n CHR ''x''"

text \<open>
  The same store with an anomaly: a third membership in the direct conversation \<open>c1\<close>.
\<close>

definition odd_store :: store where
  "odd_store = small_store\<lparr> memberships := memberships small_store @ [mk_membership ''k3'' ''u3'' ''c1''] \<rparr>"

text \<open>The small store after Alice has asked for a direct chat with Carol.\<close>

definition small_after :: store where
  "small_after = fst (post_conversations small_store gen_a 300 ''u1'' [''u3''] False None)"

text \<open>The anomalous store after Alice has asked for a direct chat with Bob.\<close>

definition odd_after :: store where
  "odd_after = fst (post_conversations odd_store gen_a 300 ''u1'' [''u2''] False None)"









section \<open>Properties of the member set\<close>

lemma set_set_add_all: "set (set_add_all acc xs) = set acc \<union> set xs"
  by (induction xs arbitrary: acc) auto

lemma distinct_set_add_all: "distinct acc \<Longrightarrow> distinct (set_add_all acc xs)"
  by (induction xs arbitrary: acc) auto

lemma set_array_from_set: "set (array_from_set xs) = set xs"
  by (simp add: array_from_set_def set_set_add_all)

lemma distinct_array_from_set: "distinct (array_from_set xs)"
  by (simp add: array_from_set_def distinct_set_add_all)

lemma length_array_from_set: "length (array_from_set xs) = card (set xs)"
  using distinct_card [OF distinct_array_from_set, of xs]
  by (simp add: set_array_from_set)

section \<open>Direct chats need exactly two members\<close>

text \<open>
  Claim C4. A request for a direct chat (\<open>isGroup\<close> false) whose member set
  \<open>{requester} \<union> memberIds\<close> does not have exactly two elements is answered with status 400
  and the message \<^verbatim>\<open>direct chat must have exactly 2 members\<close>, and the store is returned
  as it was: no conversation row and no membership row is created.
\<close>

theorem direct_chat_cardinality_rejected:
  assumes "card (insert uid (set memberIds)) \<noteq> 2"
  shows "post_conversations s gen now uid memberIds False title
           = (s, Status400 ''direct chat must have exactly 2 members'')"
  using assms by (simp add: post_conversations_def length_array_from_set)

theorem direct_chat_cardinality_rejected_witness:
  "card (insert ''u1'' (set [''u2'', ''u3''])) \<noteq> 2
   \<and> post_conversations small_store gen_a 300 ''u1'' [''u2'', ''u3''] False None
      = (small_store, Status400 ''direct chat must have exactly 2 members'')
   \<and> card (insert ''u1'' (set [''u1''])) \<noteq> 2
   \<and> post_conversations small_store gen_a 300 ''u1'' [''u1''] False None
      = (small_store, Status400 ''direct chat must have exactly 2 members'')"
proof -
  have three: "card (insert ''u1'' (set [''u2'', ''u3''])) \<noteq> 2" by simp
  have one: "card (insert ''u1'' (set [''u1''])) \<noteq> 2" by simp
  show ?thesis
    using three one
      direct_chat_cardinality_rejected [OF three, of small_store gen_a 300 None]
      direct_chat_cardinality_rejected [OF one, of small_store gen_a 300 None]
    by (intro conjI)
qed

section \<open>Direct chats are found or created\<close>

lemma two_elements:
  assumes "length xs = 2" and "set xs = {a, b}" and "a \<noteq> b"
  shows "xs = [a, b] \<or> xs = [b, a]"
proof -
  obtain x y where xs: "xs = [x, y]"
    using assms(1) by (cases xs; cases "tl xs") auto
  with assms(2,3) show ?thesis
    by (auto simp: doubleton_eq_iff)
qed

lemma pair_array:
  assumes "set (r # ms) = {a, b}" and "a \<noteq> b"
  shows "array_from_set (r # ms) = [a, b] \<or> array_from_set (r # ms) = [b, a]"
proof -
  have "length (array_from_set (r # ms)) = 2"
    using assms by (simp only: length_array_from_set) simp
  moreover have "set (array_from_set (r # ms)) = {a, b}"
    using assms(1) by (simp only: set_array_from_set)
  ultimately show ?thesis
    using assms(2) by (rule two_elements)
qed

lemma direct_match_sym: "direct_match s u1 u2 c = direct_match s u2 u1 c"
  by (auto simp: direct_match_def)

lemma findFirst_sym: "conversation_findFirst s u1 u2 = conversation_findFirst s u2 u1"
proof -
  have "direct_match s u1 u2 = direct_match s u2 u1"
    by (rule ext) (rule direct_match_sym)
  then show ?thesis
    by (simp add: conversation_findFirst_def)
qed

lemma post_direct_pair:
  assumes "set (r # ms) = {a, b}" and "a \<noteq> b"
  shows "post_conversations s g now r ms False title =
     (case conversation_findFirst s a b of
        Some existing \<Rightarrow>
          if length (snd existing) = 2 then (s, Ok200 existing)
          else create_and_reply s g now False title (array_from_set (r # ms))
      | None \<Rightarrow> create_and_reply s g now False title (array_from_set (r # ms)))"
proof -
  from pair_array [OF assms] show ?thesis
  proof
    assume "array_from_set (r # ms) = [a, b]"
    then show ?thesis
      by (simp add: post_conversations_def Let_def cong: option.case_cong if_cong)
  next
    assume "array_from_set (r # ms) = [b, a]"
    then show ?thesis
      by (simp add: post_conversations_def Let_def findFirst_sym [of s b a]
          cong: option.case_cong if_cong)
  qed
qed

lemma map_fst_zip_fun:
  "length xs = length ys \<Longrightarrow> map (\<lambda>p. f (fst p)) (zip xs ys) = map f xs"
  by (induction xs ys rule: list_induct2) auto

lemma new_memberships_ids:
  "map mem_id (new_memberships g now cid uids) = map g [1..<Suc (length uids)]"
proof -
  have "map mem_id (new_memberships g now cid uids)
          = map (\<lambda>p. g (Suc (fst p))) (zip [0..<length uids] uids)"
    by (simp add: new_memberships_def enumerate_eq_zip case_prod_beta comp_def)
  also have "\<dots> = map (\<lambda>i. g (Suc i)) [0..<length uids]"
    by (rule map_fst_zip_fun) simp
  also have "\<dots> = map g (map Suc [0..<length uids])"
    by (simp add: comp_def)
  also have "\<dots> = map g [1..<Suc (length uids)]"
    by (simp only: map_Suc_upt One_nat_def)
  finally show ?thesis .
qed

lemma new_memberships_users:
  "map mem_userId (new_memberships g now cid uids) = uids"
proof -
  have "map mem_userId (new_memberships g now cid uids)
          = map snd (zip [0..<length uids] uids)"
    by (simp add: new_memberships_def enumerate_eq_zip case_prod_beta comp_def)
  then show ?thesis by simp
qed

lemma new_memberships_conv:
  "m \<in> set (new_memberships g now cid uids) \<Longrightarrow> mem_conversationId m = cid"
  by (auto simp: new_memberships_def)

lemma length_new_memberships: "length (new_memberships g now cid uids) = length uids"
  by (simp add: new_memberships_def)

lemma filter_new_memberships:
  "filter (\<lambda>m. mem_conversationId m = x) (new_memberships g now cid uids)
     = (if x = cid then new_memberships g now cid uids else [])"
  by (auto simp: new_memberships_def filter_empty_conv intro!: filter_True)

lemma conversation_create_cases:
  "conversation_create s g now isGroup title uids =
     (if ids_fresh s g (length uids) \<and> set uids \<subseteq> set (map user_id (users s))
      then Inr (created s g now isGroup title uids,
                include_memberships (created s g now isGroup title uids)
                  \<lparr> conv_id = g 0, conv_isGroup = isGroup, conv_title = title, conv_createdAt = now \<rparr>)
      else Inl (if ids_fresh s g (length uids) then ForeignKeyViolation else UniqueViolation))"
  unfolding conversation_create_def ids_fresh_def created_def Let_def new_memberships_ids
  by (simp only: set_map) auto

lemma create_and_reply_cases:
  "create_and_reply s g now isGroup title uids =
     (if ids_fresh s g (length uids) \<and> set uids \<subseteq> set (map user_id (users s))
      then (created s g now isGroup title uids,
            Ok200 (include_memberships (created s g now isGroup title uids)
                  \<lparr> conv_id = g 0, conv_isGroup = isGroup, conv_title = title, conv_createdAt = now \<rparr>))
      else (s, Status500 ''server_error''))"
  by (simp add: create_and_reply_def conversation_create_cases)

lemma memberships_of_created:
  "memberships_of (created s g now ig title uids) x
     = memberships_of s x @ (if x = g 0 then new_memberships g now (g 0) uids else [])"
  by (simp add: memberships_of_def created_def filter_new_memberships)

lemma direct_match_created_old:
  "conv_id c \<noteq> g 0 \<Longrightarrow>
   direct_match (created s g now ig title uids) u1 u2 c = direct_match s u1 u2 c"
  by (simp add: direct_match_def memberships_of_created)

lemma include_created_old:
  "conv_id c \<noteq> g 0 \<Longrightarrow>
   include_memberships (created s g now ig title uids) c = include_memberships s c"
  by (simp add: include_memberships_def memberships_of_created)

lemma find_append:
  "find P (xs @ ys) = (case find P xs of None \<Rightarrow> find P ys | Some x \<Rightarrow> Some x)"
  by (induction xs) auto

lemma find_in_set: "find P xs = Some x \<Longrightarrow> x \<in> set xs \<and> P x"
  by (auto simp: find_Some_iff)

lemma findFirst_SomeD:
  assumes "conversation_findFirst s a b = Some e"
  shows "fst e \<in> set (conversations s) \<and> direct_match s a b (fst e)
         \<and> snd e = memberships_of s (conv_id (fst e))"
proof -
  from assms obtain x where x: "find (direct_match s a b) (conversations s) = Some x"
    and e: "e = include_memberships s x"
    by (auto simp: conversation_findFirst_def)
  from find_in_set [OF x] e show ?thesis
    by (simp add: include_memberships_def)
qed

lemma findFirst_created:
  fixes s :: store and g :: "nat \<Rightarrow> ident" and now :: time and ig :: bool
    and title :: "string option" and uids :: "ident list"
  assumes "g 0 \<notin> set (map conv_id (conversations s))"
  defines "s' \<equiv> created s g now ig title uids"
  defines "cnew \<equiv> \<lparr> conv_id = g 0, conv_isGroup = ig, conv_title = title, conv_createdAt = now \<rparr>"
  shows "conversation_findFirst s' a b =
     (case conversation_findFirst s a b of
        Some e \<Rightarrow> Some e
      | None \<Rightarrow> if direct_match s' a b cnew then Some (include_memberships s' cnew) else None)"
proof -
  have old: "conv_id c \<noteq> g 0" if "c \<in> set (conversations s)" for c
    using that assms(1) by (metis image_eqI set_map)
  have same: "find (direct_match s' a b) (conversations s) = find (direct_match s a b) (conversations s)"
    by (rule find_cong) (simp_all add: s'_def direct_match_created_old old)
  have convs: "conversations s' = conversations s @ [cnew]"
    by (simp add: s'_def created_def cnew_def)
  show ?thesis
  proof (cases "find (direct_match s a b) (conversations s)")
    case None
    then show ?thesis
      by (simp add: conversation_findFirst_def convs find_append same)
  next
    case (Some x)
    then have "x \<in> set (conversations s)"
      by (simp add: find_in_set)
    then have "include_memberships s' x = include_memberships s x"
      unfolding s'_def by (intro include_created_old old)
    with Some show ?thesis
      by (simp add: conversation_findFirst_def convs find_append same)
  qed
qed

lemma post_conversations_store:
  assumes "post_conversations s g now r ms ig title = (s', rep)"
  shows "s' = s \<or> (s' = created s g now ig title (array_from_set (r # ms))
                   \<and> set (array_from_set (r # ms)) \<subseteq> set (map user_id (users s)))"
  using assms
  by (auto simp: post_conversations_def Let_def create_and_reply_cases
      split: if_splits option.splits)

lemma memberships_ref_ok_created:
  assumes "memberships_ref_ok s" and "set uids \<subseteq> set (map user_id (users s))"
  shows "memberships_ref_ok (created s g now ig title uids)"
proof -
  have "set (map mem_userId (new_memberships g now (g 0) uids)) = set uids"
    by (simp only: new_memberships_users)
  moreover have "set (map mem_conversationId (new_memberships g now (g 0) uids)) \<subseteq> {g 0}"
    by (auto dest: new_memberships_conv)
  ultimately show ?thesis
    using assms unfolding memberships_ref_ok_def created_def by auto
qed

lemma memberships_ref_ok_post_conversations:
  assumes "memberships_ref_ok s" and "post_conversations s g now r ms ig title = (s', rep)"
  shows "memberships_ref_ok s'"
  using post_conversations_store [OF assms(2)] assms(1) memberships_ref_ok_created by blast

lemma no_memberships_of_unused:
  assumes "memberships_ref_ok s" and "x \<notin> set (map conv_id (conversations s))"
  shows "memberships_of s x = []"
  using assms unfolding memberships_ref_ok_def memberships_of_def
  by (auto simp: filter_empty_conv)

lemma first_call_answer:
  assumes pair: "set (r # ms) = {a, b}" "a \<noteq> b"
    and fresh: "g 0 \<notin> set (map conv_id (conversations s))"
    and call: "post_conversations s g now r ms False title = (s1, rep1)"
    and cand: "conversation_findFirst s1 a b = Some existing"
    and two: "length (snd existing) = 2"
  shows "rep1 = Ok200 existing"
proof (cases "conversation_findFirst s a b")
  case None
  with call have cr: "create_and_reply s g now False title (array_from_set (r # ms)) = (s1, rep1)"
    by (simp add: post_direct_pair [OF pair])
  show ?thesis
  proof (cases "s1 = s")
    case True
    with cand None show ?thesis by simp
  next
    case False
    with cr have s1: "s1 = created s g now False title (array_from_set (r # ms))"
      and rep1: "rep1 = Ok200 (include_memberships s1
                   \<lparr> conv_id = g 0, conv_isGroup = False, conv_title = title, conv_createdAt = now \<rparr>)"
      by (auto simp: create_and_reply_cases split: if_splits)
    from cand None have "Some existing = Some (include_memberships s1
                   \<lparr> conv_id = g 0, conv_isGroup = False, conv_title = title, conv_createdAt = now \<rparr>)"
      unfolding s1 findFirst_created [of g s, OF fresh] by (simp split: if_splits)
    with rep1 show ?thesis by simp
  qed
next
  case (Some e)
  show ?thesis
  proof (cases "length (snd e) = 2")
    case True
    with call Some have "s1 = s" and "rep1 = Ok200 e"
      by (simp_all add: post_direct_pair [OF pair])
    with cand Some show ?thesis by simp
  next
    case False
    with call Some
    have cr: "create_and_reply s g now False title (array_from_set (r # ms)) = (s1, rep1)"
      by (simp add: post_direct_pair [OF pair])
    have "conversation_findFirst s1 a b = Some e"
    proof (cases "s1 = s")
      case True
      with Some show ?thesis by simp
    next
      case False
      with cr have "s1 = created s g now False title (array_from_set (r # ms))"
        by (auto simp: create_and_reply_cases split: if_splits)
      then show ?thesis
        using Some by (simp add: findFirst_created [of g s, OF fresh])
    qed
    with cand have "existing = e" by simp
    with two False show ?thesis by simp
  qed
qed

lemma second_call_creates:
  assumes pair: "set (r # ms) = {a, b}" "a \<noteq> b"
    and ok: "memberships_ref_ok s"
    and fresh: "ids_fresh s g 2"
    and cand: "conversation_findFirst s a b = Some existing"
    and more: "length (snd existing) \<noteq> 2"
    and call: "post_conversations s g now r ms False title = (s2, rep2)"
  shows "\<exists>convo. rep2 = Ok200 convo
           \<and> conv_id (fst convo) = g 0 \<and> conv_id (fst convo) \<noteq> conv_id (fst existing)
           \<and> \<not> conv_isGroup (fst convo)
           \<and> conversations s2 = conversations s @ [fst convo]
           \<and> memberships s2 = memberships s @ snd convo
           \<and> map mem_userId (snd convo) = array_from_set (r # ms)
           \<and> length (snd convo) = 2"
proof -
  let ?uids = "array_from_set (r # ms)"
  let ?cnew = "\<lparr> conv_id = g 0, conv_isGroup = False, conv_title = title, conv_createdAt = now \<rparr>"
  have len: "length ?uids = 2"
    using pair by (simp only: length_array_from_set) simp
  have set_uids: "set ?uids = {a, b}"
    using pair(1) by (simp only: set_array_from_set)
  from findFirst_SomeD [OF cand]
  have ex_in: "fst existing \<in> set (conversations s)"
    and dm: "direct_match s a b (fst existing)" by simp_all
  have "set (map mem_userId (memberships_of s (conv_id (fst existing))))
          \<subseteq> set (map mem_userId (memberships s))"
    by (auto simp: memberships_of_def)
  with dm ok have users: "set ?uids \<subseteq> set (map user_id (users s))"
    unfolding set_uids direct_match_def memberships_ref_ok_def by blast
  have g0: "g 0 \<notin> set (map conv_id (conversations s))"
    using fresh by (simp add: ids_fresh_def)
  from call cand more
  have cr: "create_and_reply s g now False title ?uids = (s2, rep2)"
    by (simp add: post_direct_pair [OF pair])
  with fresh users len
  have s2: "s2 = created s g now False title ?uids"
    and rep2: "rep2 = Ok200 (include_memberships s2 ?cnew)"
    by (auto simp: create_and_reply_cases)
  have mem_new: "memberships_of s2 (g 0) = new_memberships g now (g 0) ?uids"
    unfolding s2 by (simp add: memberships_of_created no_memberships_of_unused [OF ok g0])
  have differ: "g 0 \<noteq> conv_id (fst existing)"
    using ex_in g0 by (metis image_eqI set_map)
  show ?thesis
    using rep2 mem_new differ len
    by (intro exI [of _ "include_memberships s2 ?cnew"])
       (simp add: include_memberships_def s2 created_def new_memberships_users
          length_new_memberships)
qed

lemma candidate_has_two:
  assumes "direct_pairs_ok s" and "conversation_findFirst s a b = Some e"
  shows "length (snd e) = 2"
  using findFirst_SomeD [OF assms(2)] assms(1)
  by (auto simp: direct_pairs_ok_def direct_match_def)

lemma created_pair_found:
  fixes now :: time and title :: "string option"
  assumes ok: "memberships_ref_ok s"
    and fresh: "g 0 \<notin> set (map conv_id (conversations s))"
    and none: "conversation_findFirst s a b = None"
    and uids: "set uids = {a, b}"
  defines "s1 \<equiv> created s g now False title uids"
  shows "conversation_findFirst s1 a b
           = Some (include_memberships s1
                \<lparr> conv_id = g 0, conv_isGroup = False, conv_title = title, conv_createdAt = now \<rparr>)"
    and "memberships_of s1 (g 0) = new_memberships g now (g 0) uids"
proof -
  show m: "memberships_of s1 (g 0) = new_memberships g now (g 0) uids"
    unfolding s1_def by (simp add: memberships_of_created no_memberships_of_unused [OF ok fresh])
  have "set (map mem_userId (memberships_of s1 (g 0))) = {a, b}"
    unfolding m new_memberships_users by (rule uids)
  then have "direct_match s1 a b
       \<lparr> conv_id = g 0, conv_isGroup = False, conv_title = title, conv_createdAt = now \<rparr>"
    by (simp add: direct_match_def)
  then show "conversation_findFirst s1 a b
           = Some (include_memberships s1
                \<lparr> conv_id = g 0, conv_isGroup = False, conv_title = title, conv_createdAt = now \<rparr>)"
    unfolding s1_def by (simp add: findFirst_created [of g s, OF fresh] none)
qed

lemma direct_chat_idempotent:
  assumes ok: "memberships_ref_ok s" and inv: "direct_pairs_ok s"
    and ab: "a \<noteq> b"
    and p1: "set (r1 # ms1) = {a, b}" and p2: "set (r2 # ms2) = {a, b}"
    and f1: "ids_fresh s g1 2"
    and c1: "post_conversations s g1 t1 r1 ms1 False title1 = (s1, Ok200 c)"
    and c2: "post_conversations s1 g2 t2 r2 ms2 False title2 = (s2, rep2)"
  shows "rep2 = Ok200 c \<and> s2 = s1"
proof -
  have g0: "g1 0 \<notin> set (map conv_id (conversations s))"
    using f1 by (simp add: ids_fresh_def)
  have found: "conversation_findFirst s1 a b = Some c \<and> length (snd c) = 2"
  proof (cases "conversation_findFirst s a b")
    case (Some e)
    have two: "length (snd e) = 2"
      using inv Some by (rule candidate_has_two)
    with c1 Some have "s1 = s" and "c = e"
      by (simp_all add: post_direct_pair [OF p1 ab])
    with Some two show ?thesis by simp
  next
    case None
    let ?uids = "array_from_set (r1 # ms1)"
    let ?cnew = "\<lparr> conv_id = g1 0, conv_isGroup = False, conv_title = title1, conv_createdAt = t1 \<rparr>"
    have set_uids: "set ?uids = {a, b}"
      using p1 by (simp only: set_array_from_set)
    have len: "length ?uids = 2"
      using p1 ab by (simp only: length_array_from_set) simp
    from c1 None have "create_and_reply s g1 t1 False title1 ?uids = (s1, Ok200 c)"
      by (simp add: post_direct_pair [OF p1 ab])
    then have s1: "s1 = created s g1 t1 False title1 ?uids"
      and c: "c = include_memberships s1 ?cnew"
      by (auto simp: create_and_reply_cases split: if_splits)
    from created_pair_found [where g = g1 and now = t1 and title = title1, OF ok g0 None set_uids]
    have "conversation_findFirst s1 a b = Some c"
      and "memberships_of s1 (g1 0) = new_memberships g1 t1 (g1 0) ?uids"
      unfolding s1 [symmetric] c by simp_all
    then show ?thesis
      by (simp add: c include_memberships_def length_new_memberships len)
  qed
  with c2 show ?thesis
    by (simp add: post_direct_pair [OF p2 ab])
qed

lemma direct_pairs_ok_created:
  assumes ok: "memberships_ref_ok s" and inv: "direct_pairs_ok s"
    and fresh: "g 0 \<notin> set (map conv_id (conversations s))"
    and len: "ig \<or> length uids = 2"
  shows "direct_pairs_ok (created s g now ig title uids)"
proof -
  let ?s1 = "created s g now ig title uids"
  have old: "memberships_of ?s1 (conv_id c) = memberships_of s (conv_id c)"
    if "c \<in> set (conversations s)" for c
  proof -
    have "conv_id c \<noteq> g 0"
      using that fresh by (metis image_eqI set_map)
    then show ?thesis by (simp add: memberships_of_created)
  qed
  have new: "memberships_of ?s1 (g 0) = new_memberships g now (g 0) uids"
    by (simp add: memberships_of_created no_memberships_of_unused [OF ok fresh])
  show ?thesis
    unfolding direct_pairs_ok_def
  proof (intro ballI impI)
    fix c assume c: "c \<in> set (conversations ?s1)" and d: "\<not> conv_isGroup c"
    from c have "c \<in> set (conversations s)
        \<or> c = \<lparr> conv_id = g 0, conv_isGroup = ig, conv_title = title, conv_createdAt = now \<rparr>"
      by (auto simp: created_def)
    then show "length (memberships_of ?s1 (conv_id c)) = 2"
    proof
      assume "c \<in> set (conversations s)"
      with inv d old show ?thesis by (simp add: direct_pairs_ok_def)
    next
      assume "c = \<lparr> conv_id = g 0, conv_isGroup = ig, conv_title = title, conv_createdAt = now \<rparr>"
      with d len new show ?thesis by (simp add: length_new_memberships)
    qed
  qed
qed

lemma direct_pairs_ok_post_conversations:
  assumes ok: "memberships_ref_ok s" and inv: "direct_pairs_ok s"
    and fresh: "g 0 \<notin> set (map conv_id (conversations s))"
    and call: "post_conversations s g now r ms ig title = (s', rep)"
  shows "direct_pairs_ok s'"
proof -
  have len: "ig \<or> length (array_from_set (r # ms)) = 2" if "s' \<noteq> s"
    using that call by (auto simp: post_conversations_def Let_def split: if_splits)
  from post_conversations_store [OF call] show ?thesis
  proof
    assume "s' = s" with inv show ?thesis by simp
  next
    assume h: "s' = created s g now ig title (array_from_set (r # ms))
               \<and> set (array_from_set (r # ms)) \<subseteq> set (map user_id (users s))"
    show ?thesis
    proof (cases "s' = s")
      case True with inv show ?thesis by simp
    next
      case False
      from direct_pairs_ok_created [where g = g, OF ok inv fresh len [OF False]] h show ?thesis by simp
    qed
  qed
qed

lemma store_invariants_initially:
  "memberships_ref_ok \<lparr> users = us, conversations = [], memberships = [], messages = [] \<rparr>"
  "direct_pairs_ok \<lparr> users = us, conversations = [], memberships = [], messages = [] \<rparr>"
  by (simp_all add: memberships_ref_ok_def direct_pairs_ok_def)

text \<open>
  Claim C1. Get-or-create of a direct chat is idempotent. Two users \<open>a \<noteq> b\<close>; the handler is
  called twice for the same unordered pair (requester and member list in any order, with
  repetitions); the store satisfies the membership foreign keys and the generated ids are
  new. A candidate is what the lookup of the second call finds: the first non-group
  conversation with a membership of \<open>a\<close> and one of \<open>b\<close>, with its memberships.
  \<^item> If the candidate has exactly two memberships, the second call answers with it and leaves
    the store as it was (no conversation row, no membership row is added), and the first
    call had answered with the same conversation.
  \<^item> If its membership count is not two, it is not reused: the second call inserts a new
    non-group conversation under a new id, with one membership for each of the two users,
    and answers with it.
  \<^item> Where every non-group conversation has exactly two memberships (no extra member was
    ever added) and the first call answered with a conversation, the second call answers
    with the same conversation and leaves the store as it was.
\<close>

theorem direct_chat_get_or_create:
  assumes ok: "memberships_ref_ok s"
    and ab: "a \<noteq> b"
    and p1: "set (r1 # ms1) = {a, b}" and p2: "set (r2 # ms2) = {a, b}"
    and f1: "ids_fresh s g1 2"
    and c1: "post_conversations s g1 t1 r1 ms1 False title1 = (s1, rep1)"
    and f2: "ids_fresh s1 g2 2"
    and c2: "post_conversations s1 g2 t2 r2 ms2 False title2 = (s2, rep2)"
  shows "(conversation_findFirst s1 a b = Some existing \<and> length (snd existing) = 2
            \<longrightarrow> rep2 = Ok200 existing \<and> s2 = s1 \<and> rep1 = Ok200 existing)
       \<and> (conversation_findFirst s1 a b = Some existing \<and> length (snd existing) \<noteq> 2
            \<longrightarrow> (\<exists>convo. rep2 = Ok200 convo
                   \<and> conv_id (fst convo) = g2 0 \<and> conv_id (fst convo) \<noteq> conv_id (fst existing)
                   \<and> \<not> conv_isGroup (fst convo)
                   \<and> conversations s2 = conversations s1 @ [fst convo]
                   \<and> memberships s2 = memberships s1 @ snd convo
                   \<and> map mem_userId (snd convo) = array_from_set (r2 # ms2)
                   \<and> length (snd convo) = 2))
       \<and> (direct_pairs_ok s \<and> rep1 = Ok200 c \<longrightarrow> rep2 = Ok200 c \<and> s2 = s1)"
proof (intro conjI impI)
  assume h: "conversation_findFirst s1 a b = Some existing \<and> length (snd existing) = 2"
  then have cand: "conversation_findFirst s1 a b = Some existing"
    and two: "length (snd existing) = 2" by simp_all
  from c2 cand two show "rep2 = Ok200 existing" and "s2 = s1"
    by (simp_all add: post_direct_pair [OF p2 ab])
  have "g1 0 \<notin> set (map conv_id (conversations s))"
    using f1 by (simp add: ids_fresh_def)
  then show "rep1 = Ok200 existing"
    using c1 cand two by (rule first_call_answer [OF p1 ab])
next
  assume h: "conversation_findFirst s1 a b = Some existing \<and> length (snd existing) \<noteq> 2"
  then have cand: "conversation_findFirst s1 a b = Some existing"
    and more: "length (snd existing) \<noteq> 2" by simp_all
  have ok1: "memberships_ref_ok s1"
    using ok c1 by (rule memberships_ref_ok_post_conversations)
  show "\<exists>convo. rep2 = Ok200 convo
           \<and> conv_id (fst convo) = g2 0 \<and> conv_id (fst convo) \<noteq> conv_id (fst existing)
           \<and> \<not> conv_isGroup (fst convo)
           \<and> conversations s2 = conversations s1 @ [fst convo]
           \<and> memberships s2 = memberships s1 @ snd convo
           \<and> map mem_userId (snd convo) = array_from_set (r2 # ms2)
           \<and> length (snd convo) = 2"
    using p2 ab ok1 f2 cand more c2 by (rule second_call_creates)
next
  assume h: "direct_pairs_ok s \<and> rep1 = Ok200 c"
  then have inv: "direct_pairs_ok s" and c1': "post_conversations s g1 t1 r1 ms1 False title1 = (s1, Ok200 c)"
    using c1 by simp_all
  from direct_chat_idempotent [OF ok inv ab p1 p2 f1 c1' c2]
  show "rep2 = Ok200 c" and "s2 = s1" by simp_all
qed

theorem direct_chat_get_or_create_witness:
  "memberships_ref_ok small_store \<and> direct_pairs_ok small_store \<and> ''u1'' \<noteq> ''u2''
   \<and> set [''u1'', ''u2''] = {''u1'', ''u2''} \<and> set [''u2'', ''u1'', ''u1''] = {''u1'', ''u2''}
   \<and> ids_fresh small_store gen_a 2 \<and> ids_fresh small_store gen_b 2
   \<and> conversation_findFirst small_store ''u1'' ''u2''
        = Some (c1_row, [mk_membership ''k1'' ''u1'' ''c1'', mk_membership ''k2'' ''u2'' ''c1''])
   \<and> post_conversations small_store gen_a 300 ''u1'' [''u2''] False None
        = (small_store, Ok200 (c1_row, [mk_membership ''k1'' ''u1'' ''c1'', mk_membership ''k2'' ''u2'' ''c1'']))
   \<and> post_conversations small_store gen_b 400 ''u2'' [''u1'', ''u1''] False None
        = (small_store, Ok200 (c1_row, [mk_membership ''k1'' ''u1'' ''c1'', mk_membership ''k2'' ''u2'' ''c1'']))
   \<and> memberships_ref_ok odd_store \<and> ids_fresh odd_store gen_a 2 \<and> ids_fresh odd_after gen_b 2
   \<and> conversation_findFirst odd_after ''u1'' ''u2''
        = Some (c1_row, [mk_membership ''k1'' ''u1'' ''c1'', mk_membership ''k2'' ''u2'' ''c1'',
                         mk_membership ''k3'' ''u3'' ''c1''])
   \<and> (\<exists>convo. snd (post_conversations odd_after gen_b 400 ''u2'' [''u1''] False None) = Ok200 convo
          \<and> conv_id (fst convo) = gen_b 0 \<and> conv_id (fst convo) \<noteq> conv_id c1_row
          \<and> \<not> conv_isGroup (fst convo)
          \<and> conversations (fst (post_conversations odd_after gen_b 400 ''u2'' [''u1''] False None))
               = conversations odd_after @ [fst convo]
          \<and> memberships (fst (post_conversations odd_after gen_b 400 ''u2'' [''u1''] False None))
               = memberships odd_after @ snd convo
          \<and> map mem_userId (snd convo) = [''u2'', ''u1'']
          \<and> length (snd convo) = 2)
   \<and> ''u1'' \<noteq> ''u3'' \<and> ids_fresh small_after gen_b 2
   \<and> conversation_findFirst small_store ''u1'' ''u3'' = None
   \<and> snd (post_conversations small_store gen_a 300 ''u1'' [''u3''] False None)
        = Ok200 (\<lparr> conv_id = ''a'', conv_isGroup = False, conv_title = None, conv_createdAt = 300 \<rparr>,
                 [\<lparr> mem_id = ''ax'', mem_userId = ''u1'', mem_conversationId = ''a'',
                    mem_role = ''member'', mem_joinedAt = 300, mem_lastReadMsgId = None \<rparr>,
                  \<lparr> mem_id = ''axx'', mem_userId = ''u3'', mem_conversationId = ''a'',
                    mem_role = ''member'', mem_joinedAt = 300, mem_lastReadMsgId = None \<rparr>])
   \<and> post_conversations small_after gen_b 400 ''u3'' [''u1''] False None
        = (small_after, snd (post_conversations small_store gen_a 300 ''u1'' [''u3''] False None))"
proof -
  let ?e = "(c1_row, [mk_membership ''k1'' ''u1'' ''c1'', mk_membership ''k2'' ''u2'' ''c1''])"
  let ?o = "(c1_row, [mk_membership ''k1'' ''u1'' ''c1'', mk_membership ''k2'' ''u2'' ''c1'',
                         mk_membership ''k3'' ''u3'' ''c1''])"
  let ?n = "(\<lparr> conv_id = ''a'', conv_isGroup = False, conv_title = None, conv_createdAt = 300 \<rparr>,
                 [\<lparr> mem_id = ''ax'', mem_userId = ''u1'', mem_conversationId = ''a'',
                    mem_role = ''member'', mem_joinedAt = 300, mem_lastReadMsgId = None \<rparr>,
                  \<lparr> mem_id = ''axx'', mem_userId = ''u3'', mem_conversationId = ''a'',
                    mem_role = ''member'', mem_joinedAt = 300, mem_lastReadMsgId = None \<rparr>])"
  note main = direct_chat_get_or_create
  have ok: "memberships_ref_ok small_store" by code_simp
  have inv: "direct_pairs_ok small_store" by code_simp
  have ab: "''u1'' \<noteq> ''u2''" by simp
  have p1: "set (''u1'' # [''u2'']) = {''u1'', ''u2''}" by simp
  have p2: "set (''u2'' # [''u1'', ''u1'']) = {''u1'', ''u2''}" by auto
  have f1: "ids_fresh small_store gen_a 2" by code_simp
  have f2: "ids_fresh small_store gen_b 2" by code_simp
  have cand: "conversation_findFirst small_store ''u1'' ''u2'' = Some ?e" by code_simp
  have c1: "post_conversations small_store gen_a 300 ''u1'' [''u2''] False None = (small_store, Ok200 ?e)"
    by code_simp
  have two: "length (snd ?e) = 2" by simp
  obtain s2 rep2 where c2: "post_conversations small_store gen_b 400 ''u2'' [''u1'', ''u1''] False None
      = (s2, rep2)"
    by (cases "post_conversations small_store gen_b 400 ''u2'' [''u1'', ''u1''] False None")
  from main [OF ok ab p1 p2 f1 c1 f2 c2, of ?e] cand two
  have reuse: "rep2 = Ok200 ?e \<and> s2 = small_store" by blast
  from reuse c2 have c2r: "post_conversations small_store gen_b 400 ''u2'' [''u1'', ''u1''] False None
        = (small_store, Ok200 ?e)" by simp
  have ok': "memberships_ref_ok odd_store" by code_simp
  have f1': "ids_fresh odd_store gen_a 2" by code_simp
  have f2': "ids_fresh odd_after gen_b 2" by code_simp
  have cand': "conversation_findFirst odd_after ''u1'' ''u2'' = Some ?o" by code_simp
  have c1': "post_conversations odd_store gen_a 300 ''u1'' [''u2''] False None
        = (odd_after, snd (post_conversations odd_store gen_a 300 ''u1'' [''u2''] False None))"
    by (simp add: odd_after_def)
  have three: "length (snd ?o) \<noteq> 2" by simp
  have p2': "set (''u2'' # [''u1'']) = {''u1'', ''u2''}" by auto
  have uids: "array_from_set (''u2'' # [''u1'']) = [''u2'', ''u1'']" by code_simp
  have c2': "post_conversations odd_after gen_b 400 ''u2'' [''u1''] False None
      = (fst (post_conversations odd_after gen_b 400 ''u2'' [''u1''] False None),
         snd (post_conversations odd_after gen_b 400 ''u2'' [''u1''] False None))"
    by simp
  from main [OF ok' ab p1 p2' f1' c1' f2' c2', of ?o] cand' three
  have anomaly: "\<exists>convo. snd (post_conversations odd_after gen_b 400 ''u2'' [''u1''] False None) = Ok200 convo
          \<and> conv_id (fst convo) = gen_b 0 \<and> conv_id (fst convo) \<noteq> conv_id c1_row
          \<and> \<not> conv_isGroup (fst convo)
          \<and> conversations (fst (post_conversations odd_after gen_b 400 ''u2'' [''u1''] False None))
               = conversations odd_after @ [fst convo]
          \<and> memberships (fst (post_conversations odd_after gen_b 400 ''u2'' [''u1''] False None))
               = memberships odd_after @ snd convo
          \<and> map mem_userId (snd convo) = [''u2'', ''u1'']
          \<and> length (snd convo) = 2"
    unfolding uids fst_conv by blast
  have ac: "''u1'' \<noteq> ''u3''" by simp
  have q1: "set (''u1'' # [''u3'']) = {''u1'', ''u3''}" by simp
  have q2: "set (''u3'' # [''u1'']) = {''u1'', ''u3''}" by auto
  have f3: "ids_fresh small_after gen_b 2" by code_simp
  have none: "conversation_findFirst small_store ''u1'' ''u3'' = None" by code_simp
  have n: "snd (post_conversations small_store gen_a 300 ''u1'' [''u3''] False None) = Ok200 ?n"
    by code_simp
  have d1: "post_conversations small_store gen_a 300 ''u1'' [''u3''] False None = (small_after, Ok200 ?n)"
    using n by (simp add: small_after_def prod_eq_iff)
  obtain s3 rep3 where d2: "post_conversations small_after gen_b 400 ''u3'' [''u1''] False None = (s3, rep3)"
    by (cases "post_conversations small_after gen_b 400 ''u3'' [''u1''] False None")
  from main [OF ok ac q1 q2 f1 d1 f3 d2, of _ ?n] inv
  have "rep3 = Ok200 ?n \<and> s3 = small_after" by blast
  with d2 n have again: "post_conversations small_after gen_b 400 ''u3'' [''u1''] False None
        = (small_after, snd (post_conversations small_store gen_a 300 ''u1'' [''u3''] False None))"
    by simp
  have sets: "set [''u1'', ''u2''] = {''u1'', ''u2''}" "set [''u2'', ''u1'', ''u1''] = {''u1'', ''u2''}"
    by auto
  show ?thesis
    by (intro conjI)
       (rule ok inv ab sets f1 f2 cand c1 c2r ok' f1' f2' cand' anomaly ac f3 none n again)+
qed

section \<open>Acknowledgments\<close>

text \<open>
  The handlers around the ledger operations: an event without a conversation id or a
  message id is dropped; otherwise the ledger operation runs and the array it wrote is
  emitted to the room, and an error of the ledger operation leaves the handler.
\<close>

lemma ack_delivered_cases:
  "\<not> truthy_str cid \<or> \<not> truthy_str msgId \<Longrightarrow> ack_delivered s rs uid cid msgId = Inr (s, {})"
  "c \<noteq> [] \<Longrightarrow> mid \<noteq> [] \<Longrightarrow>
     ack_delivered s rs uid (Some c) (Some mid) =
       (case acknowledgeDelivered s mid uid of
          Inl e \<Rightarrow> Inl e
        | Inr (s', d) \<Rightarrow> Inr (s', io_to rs (room_of c) (MessageUpdatedDeliveredTo mid d)))"
  by (auto simp: ack_delivered_def str_of_def split: sum.splits)

lemma ack_read_cases:
  "\<not> truthy_str cid \<or> \<not> truthy_str msgId \<Longrightarrow> ack_read s rs uid cid msgId = Inr (s, {})"
  "c \<noteq> [] \<Longrightarrow> mid \<noteq> [] \<Longrightarrow>
     ack_read s rs uid (Some c) (Some mid) =
       (case acknowledgeRead s mid uid of
          Inl e \<Rightarrow> Inl e
        | Inr (s', r) \<Rightarrow> Inr (s', io_to rs (room_of c) (MessageUpdatedReadBy mid r)))"
  by (auto simp: ack_read_def str_of_def split: sum.splits)

lemma findUnique_None_iff: "message_findUnique s i = None \<longleftrightarrow> i \<notin> set (map msg_id (messages s))"
  by (auto simp: message_findUnique_def find_None_iff)

lemma findUnique_SomeD: "message_findUnique s i = Some m \<Longrightarrow> m \<in> set (messages s) \<and> msg_id m = i"
  by (auto simp: message_findUnique_def find_Some_iff)












text \<open>
  Claim C5. There is no guard for a missing message. For a message id that no stored
  message has, the lookup yields \<^verbatim>\<open>null\<close> and the next statement reads a field of it:
  \<open>acknowledgeDelivered\<close> and \<open>acknowledgeRead\<close> end in a \<^verbatim>\<open>TypeError\<close>, and so do the
  handlers \<^verbatim>\<open>ack_delivered\<close> and \<^verbatim>\<open>ack_read\<close> on an event that passes their guard
  (non-empty conversation id and message id); the error is not turned into a not-found
  result.
\<close>

theorem ack_missing_message_throws:
  assumes "mid \<notin> set (map msg_id (messages s))" and "mid \<noteq> []" and "c \<noteq> []"
  shows "acknowledgeDelivered s mid uid = Inl TypeError
       \<and> acknowledgeRead s mid uid = Inl TypeError
       \<and> ack_delivered s rs uid (Some c) (Some mid) = Inl TypeError
       \<and> ack_read s rs uid (Some c) (Some mid) = Inl TypeError"
proof -
  have "message_findUnique s mid = None"
    using assms(1) by (simp add: findUnique_None_iff)
  then show ?thesis
    using assms(2,3)
    by (simp add: acknowledgeDelivered_def acknowledgeRead_def ack_delivered_def ack_read_def str_of_def)
qed

theorem ack_missing_message_throws_witness:
  "''m9'' \<notin> set (map msg_id (messages small_store)) \<and> ''m9'' \<noteq> [] \<and> ''c1'' \<noteq> []
   \<and> acknowledgeDelivered small_store ''m9'' ''u2'' = Inl TypeError
   \<and> acknowledgeRead small_store ''m9'' ''u2'' = Inl TypeError
   \<and> ack_delivered small_store small_rooms ''u2'' (Some ''c1'') (Some ''m9'') = Inl TypeError
   \<and> ack_read small_store small_rooms ''u2'' (Some ''c1'') (Some ''m9'') = Inl TypeError"
proof -
  have h: "''m9'' \<notin> set (map msg_id (messages small_store))"
    by (simp add: small_store_def mk_message_def)
  have n: "''m9'' \<noteq> []" "''c1'' \<noteq> []" by simp_all
  from ack_missing_message_throws [OF h n, of "''u2''" small_rooms] h show ?thesis
    by simp
qed

lemma update_deliveredTo_frame:
  "users (message_update_deliveredTo s i v) = users s"
  "conversations (message_update_deliveredTo s i v) = conversations s"
  "memberships (message_update_deliveredTo s i v) = memberships s"
  "length (messages (message_update_deliveredTo s i v)) = length (messages s)"
  "k < length (messages s) \<Longrightarrow>
     same_but_deliveredTo (messages s ! k) (messages (message_update_deliveredTo s i v) ! k)"
  "k < length (messages s) \<Longrightarrow> msg_id (messages s ! k) \<noteq> i \<Longrightarrow>
     messages (message_update_deliveredTo s i v) ! k = messages s ! k"
  by (simp_all add: message_update_deliveredTo_def same_but_deliveredTo_def)

lemma update_readBy_frame:
  "users (message_update_readBy s i v) = users s"
  "conversations (message_update_readBy s i v) = conversations s"
  "memberships (message_update_readBy s i v) = memberships s"
  "length (messages (message_update_readBy s i v)) = length (messages s)"
  "k < length (messages s) \<Longrightarrow>
     same_but_readBy (messages s ! k) (messages (message_update_readBy s i v) ! k)"
  "k < length (messages s) \<Longrightarrow> msg_id (messages s ! k) \<noteq> i \<Longrightarrow>
     messages (message_update_readBy s i v) ! k = messages s ! k"
  by (simp_all add: message_update_readBy_def same_but_readBy_def)

text \<open>
  Claim C7. Acknowledgments preserve the frame. For a stored message, \<open>acknowledgeDelivered\<close>
  succeeds and changes nothing but the \<^verbatim>\<open>deliveredTo\<close> column of the messages with that
  id: users, conversations and memberships are as before, the message table has the same
  length, at every position the row keeps its id, conversation, author, kind, text, file
  reference, timestamp and \<^verbatim>\<open>readBy\<close>, and a row with another id is unchanged.
  Symmetrically \<open>acknowledgeRead\<close> changes nothing but \<^verbatim>\<open>readBy\<close>.
\<close>

theorem acknowledgment_frame:
  assumes "message_findUnique s mid = Some m"
  shows "(\<exists>s1 d. acknowledgeDelivered s mid uid = Inr (s1, d)
            \<and> users s1 = users s \<and> conversations s1 = conversations s
            \<and> memberships s1 = memberships s
            \<and> length (messages s1) = length (messages s)
            \<and> (\<forall>k < length (messages s).
                  same_but_deliveredTo (messages s ! k) (messages s1 ! k)
                  \<and> (msg_id (messages s ! k) \<noteq> mid \<longrightarrow> messages s1 ! k = messages s ! k)))
       \<and> (\<exists>s1 r. acknowledgeRead s mid uid = Inr (s1, r)
            \<and> users s1 = users s \<and> conversations s1 = conversations s
            \<and> memberships s1 = memberships s
            \<and> length (messages s1) = length (messages s)
            \<and> (\<forall>k < length (messages s).
                  same_but_readBy (messages s ! k) (messages s1 ! k)
                  \<and> (msg_id (messages s ! k) \<noteq> mid \<longrightarrow> messages s1 ! k = messages s ! k)))"
  using assms
  by (simp add: acknowledgeDelivered_def acknowledgeRead_def Let_def update_deliveredTo_frame
      update_readBy_frame)

theorem acknowledgment_frame_witness:
  "message_findUnique small_store ''m2'' = Some (mk_message ''m2'' 200 ''there'')
   \<and> acknowledgeDelivered small_store ''m2'' ''u2''
       = Inr (small_store\<lparr> messages := [mk_message ''m1'' 100 ''hi'',
                 (mk_message ''m2'' 200 ''there'')\<lparr> msg_deliveredTo := JArr [JStr ''u2''] \<rparr>] \<rparr>,
              [JStr ''u2''])
   \<and> (\<exists>s1 d. acknowledgeDelivered small_store ''m2'' ''u2'' = Inr (s1, d)
            \<and> users s1 = users small_store \<and> conversations s1 = conversations small_store
            \<and> memberships s1 = memberships small_store
            \<and> length (messages s1) = length (messages small_store)
            \<and> (\<forall>k < length (messages small_store).
                  same_but_deliveredTo (messages small_store ! k) (messages s1 ! k)
                  \<and> (msg_id (messages small_store ! k) \<noteq> ''m2''
                       \<longrightarrow> messages s1 ! k = messages small_store ! k)))
   \<and> (\<exists>s1 r. acknowledgeRead small_store ''m2'' ''u2'' = Inr (s1, r)
            \<and> users s1 = users small_store \<and> conversations s1 = conversations small_store
            \<and> memberships s1 = memberships small_store
            \<and> length (messages s1) = length (messages small_store)
            \<and> (\<forall>k < length (messages small_store).
                  same_but_readBy (messages small_store ! k) (messages s1 ! k)
                  \<and> (msg_id (messages small_store ! k) \<noteq> ''m2''
                       \<longrightarrow> messages s1 ! k = messages small_store ! k)))"
proof -
  have h: "message_findUnique small_store ''m2'' = Some (mk_message ''m2'' 200 ''there'')"
    by (simp add: message_findUnique_def small_store_def mk_message_def)
  have e: "acknowledgeDelivered small_store ''m2'' ''u2''
       = Inr (small_store\<lparr> messages := [mk_message ''m1'' 100 ''hi'',
                 (mk_message ''m2'' 200 ''there'')\<lparr> msg_deliveredTo := JArr [JStr ''u2''] \<rparr>] \<rparr>,
              [JStr ''u2''])"
    unfolding acknowledgeDelivered_def h
    by (simp add: push_absent_def message_update_deliveredTo_def Let_def small_store_def
        mk_message_def)
  show ?thesis
    using acknowledgment_frame [OF h, of "''u2''"]
    by (intro conjI) (rule h, rule e, simp_all only: simp_thms)
qed

section \<open>Pages of history\<close>

lemma where_clause_candidates:
  "message_where s c (if truthy_str beforeId then beforeId else None)
   = page_candidates s c beforeId"
  unfolding message_where_def
  by (cases beforeId) (auto simp: page_candidates_def str_of_def intro: filter_cong)





text \<open>
  Outside the 32-bit range the answer is the query client's: the handler passes its
  failure on, or reverses the rows it returns.
\<close>

lemma history_wide_limit:
  assumes "c \<noteq> []" and "row_limit limit = None"
  shows "get_messages wide s (Some c) beforeId limit
           = (case wide limit (page_candidates s c beforeId) of
                Inl e \<Rightarrow> Inl e | Inr rows \<Rightarrow> Inr (Ok200 (rev rows)))"
  using assms by (simp add: get_messages_def where_clause_candidates str_of_def)

text \<open>
  With a negative row count in range, the page is the oldest rows: the first \<open>- n\<close>
  candidates in ascending order of creation time, rows with the same time in table order.
\<close>

lemma history_negative_limit:
  assumes "c \<noteq> []" and "row_limit limit = Some n" and "n < 0"
  shows "get_messages wide s (Some c) beforeId limit
           = Inr (Ok200 (take (nat (- n)) (sort_key msg_createdAt (page_candidates s c beforeId))))"
  using assms
  by (simp add: get_messages_def message_findMany_def where_clause_candidates str_of_def)




section \<open>Sending a message\<close>

lemma message_create_accepted:
  assumes "c \<in> set (map conv_id (conversations s))"
    and "u \<in> set (map user_id (users s))"
    and "newId \<notin> set (map msg_id (messages s))"
  shows "message_create s newId now c u k body fileUrl
           = Inr (s\<lparr> messages := messages s @
                      [\<lparr> msg_id = newId, msg_conversationId = c, msg_authorId = u,
                         msg_kind = k, msg_text = body, msg_fileUrl = fileUrl,
                         msg_createdAt = now, msg_deliveredTo = JArr [], msg_readBy = JArr [] \<rparr>] \<rparr>,
                  \<lparr> msg_id = newId, msg_conversationId = c, msg_authorId = u,
                    msg_kind = k, msg_text = body, msg_fileUrl = fileUrl,
                    msg_createdAt = now, msg_deliveredTo = JArr [], msg_readBy = JArr [] \<rparr>)"
  using assms by (simp add: message_create_def Let_def)

text \<open>\<^verbatim>\<open>text || null\<close>: an absent or empty text is stored as \<^verbatim>\<open>null\<close>.\<close>

lemma or_null_cases:
  "or_null None = None" "or_null (Some []) = None" "v \<noteq> [] \<Longrightarrow> or_null (Some v) = Some v"
  by (simp_all add: or_null_def)

lemma send_message_dropped:
  "\<not> truthy_str cid \<or> \<not> truthy_str kind \<Longrightarrow>
   send_message s rs uid newId now cid kind body fileUrl = Inr (s, {})"
  by (auto simp: send_message_def)

lemma send_message_accepted:
  fixes now :: time and body fileUrl :: "string option" and newId u c k :: string
  assumes "c \<noteq> []" and "k \<noteq> []"
    and "c \<in> set (map conv_id (conversations s))"
    and "u \<in> set (map user_id (users s))"
    and "newId \<notin> set (map msg_id (messages s))"
  defines "msg \<equiv> \<lparr> msg_id = newId, msg_conversationId = c, msg_authorId = u,
                    msg_kind = k, msg_text = or_null body, msg_fileUrl = or_null fileUrl,
                    msg_createdAt = now, msg_deliveredTo = JArr [], msg_readBy = JArr [] \<rparr>"
  shows "send_message s rs u newId now (Some c) (Some k) body fileUrl
           = Inr (s\<lparr> messages := messages s @ [msg] \<rparr>, io_to rs (room_of c) (MessageCreated msg))"
  using assms(1,2) message_create_accepted [OF assms(3,4,5)]
  by (simp add: send_message_def str_of_def msg_def)




text \<open>
  Claim C10, as amended. \<^verbatim>\<open>send_message\<close> does not look at memberships. For a registered
  user, a stored conversation and a non-empty kind (the generated id being new), the
  handler stores a message authored by that user in that conversation and emits it to the
  room, and it does so with the same message whatever the membership table holds; in
  particular when the user has no membership in the conversation.
\<close>

theorem send_message_ignores_memberships:
  assumes "c \<noteq> []" and "k \<noteq> []"
    and "c \<in> set (map conv_id (conversations s))"
    and "uid \<in> set (map user_id (users s))"
    and "newId \<notin> set (map msg_id (messages s))"
  shows "\<exists>msg. msg_authorId msg = uid \<and> msg_conversationId msg = c
           \<and> (\<forall>ms. send_message (s\<lparr> memberships := ms \<rparr>) rs uid newId now (Some c) (Some k) body fileUrl
                      = Inr (s\<lparr> memberships := ms, messages := messages s @ [msg] \<rparr>,
                             io_to rs (room_of c) (MessageCreated msg)))"
proof -
  let ?msg = "\<lparr> msg_id = newId, msg_conversationId = c, msg_authorId = uid,
                    msg_kind = k, msg_text = or_null body, msg_fileUrl = or_null fileUrl,
                    msg_createdAt = now, msg_deliveredTo = JArr [], msg_readBy = JArr [] \<rparr>"
  have "send_message (s\<lparr> memberships := ms \<rparr>) rs uid newId now (Some c) (Some k) body fileUrl
          = Inr (s\<lparr> memberships := ms, messages := messages s @ [?msg] \<rparr>,
                 io_to rs (room_of c) (MessageCreated ?msg))" for ms
    using send_message_accepted [of c k "s\<lparr> memberships := ms \<rparr>" uid newId rs now body fileUrl] assms
    by simp
  then show ?thesis
    by (intro exI [of _ ?msg]) simp
qed

theorem send_message_ignores_memberships_witness:
  "''c1'' \<noteq> [] \<and> ''text'' \<noteq> []
   \<and> ''c1'' \<in> set (map conv_id (conversations small_store))
   \<and> ''u3'' \<in> set (map user_id (users small_store))
   \<and> ''m3'' \<notin> set (map msg_id (messages small_store))
   \<and> ''u3'' \<notin> set (map mem_userId (memberships small_store))
   \<and> (\<exists>msg. msg_authorId msg = ''u3'' \<and> msg_conversationId msg = ''c1''
        \<and> send_message small_store small_rooms ''u3'' ''m3'' 300 (Some ''c1'') (Some ''text'') (Some ''yo'') None
             = Inr (small_store\<lparr> messages := messages small_store @ [msg] \<rparr>,
                    io_to small_rooms (room_of ''c1'') (MessageCreated msg))
        \<and> send_message (small_store\<lparr> memberships := [] \<rparr>) small_rooms ''u3'' ''m3'' 300
               (Some ''c1'') (Some ''text'') (Some ''yo'') None
             = Inr (small_store\<lparr> memberships := [], messages := messages small_store @ [msg] \<rparr>,
                    io_to small_rooms (room_of ''c1'') (MessageCreated msg)))"
proof -
  have h: "''c1'' \<noteq> []" "''text'' \<noteq> []"
    "''c1'' \<in> set (map conv_id (conversations small_store))"
    "''u3'' \<in> set (map user_id (users small_store))"
    "''m3'' \<notin> set (map msg_id (messages small_store))"
    by (simp_all add: small_store_def c1_row_def mk_user_def mk_message_def)
  have n: "''u3'' \<notin> set (map mem_userId (memberships small_store))"
    by (simp add: small_store_def mk_membership_def)
  from send_message_ignores_memberships [OF h, of small_rooms 300 "Some ''yo''" None]
  obtain msg where m: "msg_authorId msg = ''u3''" "msg_conversationId msg = ''c1''"
    and all: "\<And>ms. send_message (small_store\<lparr> memberships := ms \<rparr>) small_rooms ''u3'' ''m3'' 300
                 (Some ''c1'') (Some ''text'') (Some ''yo'') None
              = Inr (small_store\<lparr> memberships := ms, messages := messages small_store @ [msg] \<rparr>,
                     io_to small_rooms (room_of ''c1'') (MessageCreated msg))"
    by blast
  have same: "small_store\<lparr> memberships := memberships small_store \<rparr> = small_store"
    by simp
  from all [of "memberships small_store"] all [of "[]"] m h n show ?thesis
    unfolding same by (intro conjI exI [of _ msg]) simp_all
qed

text \<open>
  The claim as it was stated, for every non-empty conversation id, fails for an id that
  names no conversation: a registered user's message to it is rejected by the store.
\<close>

theorem send_message_ghost_room_counterexample:
  "''u3'' \<in> set (map user_id (users small_store))
   \<and> ''ghost'' \<noteq> [] \<and> ''file'' \<noteq> []
   \<and> ''ghost'' \<notin> set (map conv_id (conversations small_store))
   \<and> send_message small_store small_rooms ''u3'' ''m4'' 400 (Some ''ghost'') (Some ''file'') None (Some ''/uploads/f1'')
        = Inl ForeignKeyViolation"
  by (simp add: send_message_def message_create_def small_store_def c1_row_def mk_message_def
      mk_user_def str_of_def)

section \<open>The store invariants are kept\<close>

text \<open>
  The membership foreign keys and the two-membership invariant of direct chats hold in a
  store without conversations, and every handler that writes keeps them (for
  \<^verbatim>\<open>POST /conversations\<close> see the lemmas above).
\<close>

lemma invariants_only_read_three_tables:
  assumes "users s' = users s" and "conversations s' = conversations s"
    and "memberships s' = memberships s"
  shows "memberships_ref_ok s' = memberships_ref_ok s" and "direct_pairs_ok s' = direct_pairs_ok s"
  using assms by (simp_all add: memberships_ref_ok_def direct_pairs_ok_def memberships_of_def)

lemma message_create_store:
  assumes "message_create s newId now c u k body fileUrl = Inr (s', m)"
  shows "s' = s\<lparr> messages := messages s @ [m] \<rparr>"
  using assms by (clarsimp simp: message_create_def Let_def split: if_splits)

lemma acknowledgeDelivered_store:
  "acknowledgeDelivered s mid uid = Inr (s', d) \<Longrightarrow> s' = message_update_deliveredTo s mid (JArr d)"
  by (clarsimp simp: acknowledgeDelivered_def Let_def split: option.splits)

lemma acknowledgeRead_store:
  "acknowledgeRead s mid uid = Inr (s', d) \<Longrightarrow> s' = message_update_readBy s mid (JArr d)"
  by (clarsimp simp: acknowledgeRead_def Let_def split: option.splits)

lemma send_message_store:
  assumes "send_message s rs uid newId now cid kind body fileUrl = Inr (s', out)"
  shows "s' = s \<or> (\<exists>m. s' = s\<lparr> messages := messages s @ [m] \<rparr>)"
proof (cases "\<not> truthy_str cid \<or> \<not> truthy_str kind")
  case True
  with assms have "s' = s" by (simp add: send_message_dropped)
  then show ?thesis by simp
next
  case False
  show ?thesis
  proof (cases "message_create s newId now (str_of cid) uid (str_of kind) (or_null body) (or_null fileUrl)")
    case (Inl e)
    with assms False show ?thesis by (simp add: send_message_def)
  next
    case (Inr p)
    obtain s1 m where p: "p = (s1, m)" by (cases p)
    with assms False Inr have "s' = s1" by (simp add: send_message_def)
    with message_create_store [OF Inr [unfolded p]] show ?thesis by blast
  qed
qed

lemma send_message_keeps_invariants:
  assumes "send_message s rs uid newId now cid kind body fileUrl = Inr (s', out)"
  shows "memberships_ref_ok s' = memberships_ref_ok s" and "direct_pairs_ok s' = direct_pairs_ok s"
proof -
  from send_message_store [OF assms]
  have "users s' = users s \<and> conversations s' = conversations s \<and> memberships s' = memberships s"
  proof
    assume "s' = s"
    then show ?thesis by (simp only: simp_thms)
  next
    assume "\<exists>m. s' = s\<lparr> messages := messages s @ [m] \<rparr>"
    then obtain m where m: "s' = s\<lparr> messages := messages s @ [m] \<rparr>" ..
    show ?thesis unfolding m by simp
  qed
  then have t: "users s' = users s" "conversations s' = conversations s"
    "memberships s' = memberships s" by blast+
  show "memberships_ref_ok s' = memberships_ref_ok s" and "direct_pairs_ok s' = direct_pairs_ok s"
    by (rule invariants_only_read_three_tables [OF t])+
qed

lemma acknowledge_keeps_invariants:
  assumes "acknowledgeDelivered s mid uid = Inr (s', d) \<or> acknowledgeRead s mid uid = Inr (s', d)"
  shows "memberships_ref_ok s' = memberships_ref_ok s" and "direct_pairs_ok s' = direct_pairs_ok s"
proof -
  from assms have "s' = message_update_deliveredTo s mid (JArr d) \<or> s' = message_update_readBy s mid (JArr d)"
    using acknowledgeDelivered_store acknowledgeRead_store by blast
  then have "users s' = users s \<and> conversations s' = conversations s \<and> memberships s' = memberships s"
  proof
    assume m: "s' = message_update_deliveredTo s mid (JArr d)"
    show ?thesis unfolding m message_update_deliveredTo_def by simp
  next
    assume m: "s' = message_update_readBy s mid (JArr d)"
    show ?thesis unfolding m message_update_readBy_def by simp
  qed
  then have t: "users s' = users s" "conversations s' = conversations s"
    "memberships s' = memberships s" by blast+
  show "memberships_ref_ok s' = memberships_ref_ok s" and "direct_pairs_ok s' = direct_pairs_ok s"
    by (rule invariants_only_read_three_tables [OF t])+
qed

section \<open>Typing notices\<close>



section \<open>Searching users\<close>













end
